theory Spec2Isabelle
  imports Complex_Main "HOL-Library.List_Lexorder" "HOL-Library.Char_ord"
begin

section \<open>Data model\<close>

text \<open>
  The knowledge graph of \<^verbatim>\<open>app.py\<close> is a networkx graph. \<^verbatim>\<open>load_kg\<close> (lines 11-20)
  builds it as \<^verbatim>\<open>nx.DiGraph()\<close>: one attribute dictionary per node and one attribute
  dictionary per ordered pair of nodes joined by an edge, which \<^verbatim>\<open>load_kg\<close> fills with
  the single key \<^verbatim>\<open>type\<close>. The functions below take the graph as a parameter, so the
  model also covers a \<^verbatim>\<open>nx.MultiDiGraph\<close> (several keyed edges per ordered pair), the
  class whose \<^verbatim>\<open>get_edge_data\<close> has the shape that \<^verbatim>\<open>categories_are_similar\<close> iterates
  over; the field \<open>multigraph\<close> tells the two apart, as \<^verbatim>\<open>G.is_multigraph()\<close> does.

  Node attributes are typed as the JSON of the knowledge graph has them: a missing key
  and a JSON \<^verbatim>\<open>null\<close> both read as \<^verbatim>\<open>None\<close> through \<^verbatim>\<open>dict.get\<close>. Python floats are
  idealised as reals.
\<close>

type_synonym node = string

datatype error = TypeError | AttributeError | KeyError

record props =
  p_type :: "string option"
  p_price :: "real option"
  p_in_stock :: "bool option"
  p_brand :: "string option"
  p_tags :: "string list option"
  p_category :: "string option"

definition no_props :: props where
  "no_props = \<lparr>p_type = None, p_price = None, p_in_stock = None, p_brand = None,
     p_tags = None, p_category = None\<rparr>"

type_synonym edge_attrs = "(string \<times> string) list"

record graph =
  multigraph :: bool
  node_attrs :: "(node \<times> props) list"
  edge_list :: "(node \<times> node \<times> edge_attrs) list"

text \<open>
  \<^verbatim>\<open>G.add_edge(u, v)\<close> adds \<open>u\<close> and \<open>v\<close> as nodes with no attributes when they are
  not nodes yet, so the nodes of a graph are the keys of \<open>node_attrs\<close> and the end
  points of its edges.
\<close>

definition node_ids :: "graph \<Rightarrow> node list" where
  "node_ids G = map fst (node_attrs G) @ concat (map (\<lambda>(u, v, a). [u, v]) (edge_list G))"

definition has_node :: "graph \<Rightarrow> node \<Rightarrow> bool" where
  "has_node G n = (n \<in> set (node_ids G))"

text \<open>\<^verbatim>\<open>G.nodes[node]\<close>: the attribute dictionary, \<^verbatim>\<open>KeyError\<close> for an absent node.\<close>

definition nodes_getitem :: "graph \<Rightarrow> node \<Rightarrow> error + props" where
  "nodes_getitem G n =
     (if has_node G n
      then Inr (case map_of (node_attrs G) n of Some p \<Rightarrow> p | None \<Rightarrow> no_props)
      else Inl KeyError)"

definition bind_err :: "error + 'a \<Rightarrow> ('a \<Rightarrow> error + 'b) \<Rightarrow> error + 'b" where
  "bind_err m f = (case m of Inl e \<Rightarrow> Inl e | Inr x \<Rightarrow> f x)"

text \<open>Keeps the first occurrence of each element: the key order of an adjacency dict.\<close>

fun first_occurrences :: "'a list \<Rightarrow> 'a list \<Rightarrow> 'a list" where
  "first_occurrences seen [] = []"
| "first_occurrences seen (x # xs) =
     (if x \<in> set seen then first_occurrences seen xs
      else x # first_occurrences (x # seen) xs)"

definition successors :: "graph \<Rightarrow> node \<Rightarrow> node list" where
  "successors G n =
     first_occurrences [] (map (\<lambda>(u, v, a). v) (filter (\<lambda>(u, v, a). u = n) (edge_list G)))"

definition predecessors :: "graph \<Rightarrow> node \<Rightarrow> node list" where
  "predecessors G n =
     first_occurrences [] (map (\<lambda>(u, v, a). u) (filter (\<lambda>(u, v, a). v = n) (edge_list G)))"

definition has_edge :: "graph \<Rightarrow> node \<Rightarrow> node \<Rightarrow> bool" where
  "has_edge G u v = (\<exists>e \<in> set (edge_list G). fst e = u \<and> fst (snd e) = v)"

text \<open>
  The values that \<^verbatim>\<open>G.get_edge_data(u, v).values()\<close> iterates over. For a multigraph
  \<^verbatim>\<open>get_edge_data\<close> is a dictionary from edge keys to attribute dictionaries, so the
  values are the attribute dictionaries of the parallel edges. For a \<^verbatim>\<open>DiGraph\<close> it is
  the attribute dictionary of the one edge itself, so the values are the attribute
  values: strings.
\<close>

datatype pyval = StrVal string | DictVal edge_attrs

definition edge_data_values :: "graph \<Rightarrow> node \<Rightarrow> node \<Rightarrow> pyval list" where
  "edge_data_values G u v =
     (if multigraph G
      then map (\<lambda>(x, y, a). DictVal a) (filter (\<lambda>(x, y, a). x = u \<and> y = v) (edge_list G))
      else (case find (\<lambda>(x, y, a). x = u \<and> y = v) (edge_list G) of
              None \<Rightarrow> []
            | Some (x, y, a) \<Rightarrow> map (\<lambda>kv. StrVal (snd kv)) a))"

text \<open>\<^verbatim>\<open>e.get(key)\<close>: a dictionary answers, a string has no attribute \<^verbatim>\<open>get\<close>.\<close>

fun py_get :: "pyval \<Rightarrow> string \<Rightarrow> error + string option" where
  "py_get (DictVal d) k = Inr (map_of d k)"
| "py_get (StrVal s) k = Inl AttributeError"

text \<open>Truthiness of an optional string: \<^verbatim>\<open>None\<close> and the empty string are falsy.\<close>

definition truthy :: "string option \<Rightarrow> bool" where
  "truthy s = (case s of None \<Rightarrow> False | Some x \<Rightarrow> x \<noteq> [])"

section \<open>Helper accessors (lines 25-41)\<close>

definition is_product :: "node \<Rightarrow> graph \<Rightarrow> error + bool" where
  "is_product node G = bind_err (nodes_getitem G node) (\<lambda>p. Inr (p_type p = Some ''product''))"

definition get_price :: "node \<Rightarrow> graph \<Rightarrow> error + real option" where
  "get_price node G = bind_err (nodes_getitem G node) (\<lambda>p. Inr (p_price p))"

definition in_stock :: "node \<Rightarrow> graph \<Rightarrow> error + bool" where
  "in_stock node G =
     bind_err (nodes_getitem G node)
       (\<lambda>p. Inr (case p_in_stock p of None \<Rightarrow> False | Some b \<Rightarrow> b))"

definition get_brand :: "node \<Rightarrow> graph \<Rightarrow> error + string option" where
  "get_brand node G = bind_err (nodes_getitem G node) (\<lambda>p. Inr (p_brand p))"

definition get_tags :: "node \<Rightarrow> graph \<Rightarrow> error + string set" where
  "get_tags node G =
     bind_err (nodes_getitem G node)
       (\<lambda>p. Inr (case p_tags p of None \<Rightarrow> {} | Some ts \<Rightarrow> set ts))"

definition get_category :: "node \<Rightarrow> graph \<Rightarrow> error + string option" where
  "get_category node G = bind_err (nodes_getitem G node) (\<lambda>p. Inr (p_category p))"

section \<open>Similarity of categories (lines 160-174)\<close>

text \<open>The body of each \<^verbatim>\<open>for e in G.get_edge_data(..).values()\<close> loop.\<close>

fun scan_similar :: "pyval list \<Rightarrow> error + bool" where
  "scan_similar [] = Inr False"
| "scan_similar (e # es) =
     bind_err (py_get e ''type'')
       (\<lambda>t. if t = Some ''SIMILAR_TO'' then Inr True else scan_similar es)"

definition similar_edge :: "graph \<Rightarrow> node \<Rightarrow> node \<Rightarrow> error + bool" where
  "similar_edge G u v =
     (if has_edge G u v then scan_similar (edge_data_values G u v) else Inr False)"

definition categories_are_similar :: "graph \<Rightarrow> string option \<Rightarrow> string option \<Rightarrow> error + bool" where
  "categories_are_similar G cat_a cat_b =
     (if \<not> truthy cat_a \<or> \<not> truthy cat_b then Inr False
      else if cat_a = cat_b then Inr True
      else (case (cat_a, cat_b) of
              (Some a, Some b) \<Rightarrow>
                bind_err (similar_edge G a b)
                  (\<lambda>found. if found then Inr True
                     else bind_err (similar_edge G b a)
                       (\<lambda>found'. if found' then Inr True else Inr False))
            | _ \<Rightarrow> Inr False))"

section \<open>Scoring (lines 101-158)\<close>

datatype reason =
    Same_category | Related_category
  | Brand_match | Different_brand | Same_brand
  | All_required_tags_matched | Missing_tags "string list"
  | Cheaper_or_equal_price | More_expensive

text \<open>
  The two accumulators \<^verbatim>\<open>score\<close> and \<^verbatim>\<open>reasons\<close> of \<^verbatim>\<open>score_candidate\<close>, threaded
  through its four blocks in the order of the source. \<^verbatim>\<open>required_tags\<close> is a Python
  set; the model takes the list of its elements.
\<close>

type_synonym acc = "real \<times> reason list"

definition category_block :: "graph \<Rightarrow> node \<Rightarrow> node \<Rightarrow> acc \<Rightarrow> error + acc" where
  "category_block G requested candidate acc =
     bind_err (get_category requested G) (\<lambda>req_cat.
     bind_err (get_category candidate G) (\<lambda>cand_cat.
       if truthy req_cat \<and> truthy cand_cat \<and> req_cat = cand_cat
       then Inr (fst acc + 3, snd acc @ [Same_category])
       else bind_err (categories_are_similar G req_cat cand_cat)
              (\<lambda>similar. if similar then Inr (fst acc + 3 / 2, snd acc @ [Related_category])
                          else Inr acc)))"

definition brand_block :: "graph \<Rightarrow> node \<Rightarrow> node \<Rightarrow> string option \<Rightarrow> acc \<Rightarrow> error + acc" where
  "brand_block G requested candidate optional_brand acc =
     (if truthy optional_brand
      then bind_err (get_brand candidate G) (\<lambda>cand_brand.
             if cand_brand = optional_brand
             then Inr (fst acc + 1, snd acc @ [Brand_match])
             else Inr (fst acc, snd acc @ [Different_brand]))
      else bind_err (get_brand candidate G) (\<lambda>cand_brand.
           bind_err (get_brand requested G) (\<lambda>req_brand.
             if cand_brand = req_brand
             then Inr (fst acc + 1 / 2, snd acc @ [Same_brand])
             else Inr acc)))"

definition tags_block :: "graph \<Rightarrow> node \<Rightarrow> string list \<Rightarrow> acc \<Rightarrow> error + acc" where
  "tags_block G candidate required_tags acc =
     bind_err (get_tags candidate G) (\<lambda>cand_tags.
       let matched_tags = set required_tags \<inter> cand_tags in
       if set required_tags \<noteq> {}
       then (if matched_tags = set required_tags
             then Inr (fst acc + 2, snd acc @ [All_required_tags_matched])
             else let missing = set required_tags - matched_tags in
               Inr (fst acc + (1 / 2) * real (card matched_tags),
                    snd acc @ [Missing_tags (sorted_list_of_set missing)]))
       else Inr acc)"

text \<open>
  The price block runs inside \<^verbatim>\<open>try: ... except Exception: pass\<close>, so an exception
  raised in it leaves the accumulators as they were.
\<close>

definition price_block :: "graph \<Rightarrow> node \<Rightarrow> node \<Rightarrow> acc \<Rightarrow> error + acc" where
  "price_block G requested candidate acc =
     (case bind_err (get_price requested G) (\<lambda>req_price.
           bind_err (get_price candidate G) (\<lambda>cand_price.
             case (req_price, cand_price) of
               (Some r, Some c) \<Rightarrow>
                 if c \<le> r
                 then Inr (fst acc + 1, snd acc @ [Cheaper_or_equal_price])
                 else Inr (fst acc - (1 / 2) * ((c - r) / max 1 r), snd acc @ [More_expensive])
             | _ \<Rightarrow> Inr acc)) of
        Inl e \<Rightarrow> Inr acc
      | Inr acc' \<Rightarrow> Inr acc')"

definition score_candidate ::
  "graph \<Rightarrow> node \<Rightarrow> node \<Rightarrow> string list \<Rightarrow> string option \<Rightarrow> error + acc" where
  "score_candidate G requested candidate required_tags optional_brand =
     bind_err (category_block G requested candidate (0, [])) (\<lambda>acc1.
     bind_err (brand_block G requested candidate optional_brand acc1) (\<lambda>acc2.
     bind_err (tags_block G candidate required_tags acc2) (\<lambda>acc3.
     price_block G requested candidate acc3)))"

section \<open>Search and ranking (lines 46-96)\<close>

record query =
  q_requested :: node
  q_max_price :: "real option"
  q_required_tags :: "string list"
  q_optional_brand :: "string option"
  q_max_results :: int

record candidate =
  c_product :: node
  c_score :: real
  c_reasons :: "reason list"
  c_path :: "node list"

text \<open>
  What \<^verbatim>\<open>find_alternatives\<close> returns: the dictionary with key \<^verbatim>\<open>error\<close>, the one with
  key \<^verbatim>\<open>exact_match\<close>, or the one with key \<^verbatim>\<open>alternatives\<close>. An exception that leaves
  the function is a value of type \<open>error\<close>.
\<close>

datatype result = Not_found | Exact_match node | Alternatives "candidate list"

text \<open>
  The state of one query: the graph object and the locals \<^verbatim>\<open>queue\<close>, \<^verbatim>\<open>visited\<close> and
  \<^verbatim>\<open>candidates\<close>. \<open>s_visited\<close> lists the arguments of every \<^verbatim>\<open>visited.add\<close> in order
  (after the seed), and \<open>s_enqueued\<close> logs the node and depth of every
  \<^verbatim>\<open>queue.append\<close>; the log is never read by the traversal.
\<close>

record bfs_state =
  s_graph :: graph
  s_queue :: "(node \<times> nat \<times> node list) list"
  s_visited :: "node list"
  s_candidates :: "candidate list"
  s_enqueued :: "(node \<times> nat) list"

text \<open>A run either ends in a state, or an exception is raised in a state.\<close>

type_synonym outcome = "(error \<times> bfs_state) + bfs_state"

definition raise_in :: "bfs_state \<Rightarrow> error + 'a \<Rightarrow> ('a \<Rightarrow> outcome) \<Rightarrow> outcome" where
  "raise_in st m f = (case m of Inl e \<Rightarrow> Inl (e, st) | Inr x \<Rightarrow> f x)"

text \<open>\<^verbatim>\<open>price <= max_price\<close>: comparing \<^verbatim>\<open>None\<close> with a number raises \<^verbatim>\<open>TypeError\<close>.\<close>

definition py_le :: "real option \<Rightarrow> real \<Rightarrow> error + bool" where
  "py_le a b = (case a of None \<Rightarrow> Inl TypeError | Some x \<Rightarrow> Inr (x \<le> b))"

text \<open>
  The three assignments \<^verbatim>\<open>price_ok\<close>, \<^verbatim>\<open>tags_ok\<close>, \<^verbatim>\<open>brand_ok\<close> and their conjunction,
  written twice in the source (lines 52-55 for the requested node, lines 82-85 for a
  neighbour).
\<close>

definition hard_filters :: "graph \<Rightarrow> query \<Rightarrow> node \<Rightarrow> error + bool" where
  "hard_filters G q n =
     bind_err (case q_max_price q of
                 None \<Rightarrow> Inr True
               | Some m \<Rightarrow> bind_err (get_price n G) (\<lambda>p. py_le p m)) (\<lambda>price_ok.
     bind_err (get_tags n G) (\<lambda>ts.
     bind_err (case q_optional_brand q of
                 None \<Rightarrow> Inr True
               | Some b \<Rightarrow> bind_err (get_brand n G) (\<lambda>x. Inr (x = Some b))) (\<lambda>brand_ok.
     Inr (price_ok \<and> set (q_required_tags q) \<subseteq> ts \<and> brand_ok))))"

text \<open>
  Line 79 calls \<^verbatim>\<open>in_stock(nbr)\<close> with one argument, while \<^verbatim>\<open>in_stock(node, G)\<close> has two
  required parameters: the call raises \<^verbatim>\<open>TypeError\<close> before the body of \<^verbatim>\<open>in_stock\<close>
  runs.
\<close>

definition in_stock_one_argument :: "node \<Rightarrow> error + bool" where
  "in_stock_one_argument node = Inl TypeError"

text \<open>The body of \<^verbatim>\<open>for nbr in neighbors\<close> (lines 72-91).\<close>

definition visit_neighbor :: "query \<Rightarrow> nat \<Rightarrow> node list \<Rightarrow> bfs_state \<Rightarrow> node \<Rightarrow> outcome" where
  "visit_neighbor q dst path st nbr =
     (if nbr \<in> set (s_visited st) then Inr st
      else
        let G = s_graph st;
            st1 = st\<lparr>s_visited := s_visited st @ [nbr]\<rparr>;
            new_path = path @ [nbr]
        in raise_in st1 (is_product nbr G) (\<lambda>isprod.
           case (if isprod \<and> nbr \<noteq> q_requested q
                 then raise_in st1 (in_stock_one_argument nbr) (\<lambda>stock.
                        if \<not> stock then Inr st1
                        else raise_in st1 (hard_filters G q nbr) (\<lambda>ok.
                          if ok
                          then raise_in st1
                                 (score_candidate G (q_requested q) nbr
                                    (remdups (q_required_tags q)) (q_optional_brand q))
                                 (\<lambda>(score, reasons).
                                    Inr (st1\<lparr>s_candidates := s_candidates st1 @
                                      [\<lparr>c_product = nbr, c_score = score,
                                        c_reasons = reasons, c_path = new_path\<rparr>]\<rparr>))
                          else Inr st1))
                 else Inr st1) of
             Inl x \<Rightarrow> Inl x
           | Inr st2 \<Rightarrow>
               Inr (if dst + 1 \<le> 4
                    then st2\<lparr>s_queue := s_queue st2 @ [(nbr, dst + 1, new_path)],
                             s_enqueued := s_enqueued st2 @ [(nbr, dst + 1)]\<rparr>
                    else st2)))"

fun for_neighbors :: "query \<Rightarrow> nat \<Rightarrow> node list \<Rightarrow> node list \<Rightarrow> bfs_state \<Rightarrow> outcome" where
  "for_neighbors q dst path [] st = Inr st"
| "for_neighbors q dst path (nbr # nbrs) st =
     (case visit_neighbor q dst path st nbr of
        Inl x \<Rightarrow> Inl x
      | Inr st' \<Rightarrow> for_neighbors q dst path nbrs st')"

text \<open>\<^verbatim>\<open>list(G.successors(node)) + list(G.predecessors(node))\<close>, for a node of the graph.\<close>

definition neighbors :: "graph \<Rightarrow> node \<Rightarrow> node list" where
  "neighbors G node = successors G node @ predecessors G node"

subsection \<open>The traversal terminates\<close>

lemma set_first_occurrences: "set (first_occurrences seen xs) \<subseteq> set xs"
  by (induction xs arbitrary: seen) auto

lemma neighbors_are_nodes: "set (neighbors G n) \<subseteq> set (node_ids G)"
proof -
  have "set (successors G n) \<subseteq> set (node_ids G)"
    unfolding successors_def node_ids_def
    using set_first_occurrences by fastforce
  moreover have "set (predecessors G n) \<subseteq> set (node_ids G)"
    unfolding predecessors_def node_ids_def
    using set_first_occurrences by fastforce
  ultimately show ?thesis by (simp add: neighbors_def)
qed

lemma in_stock_one_argument_raises:
  "raise_in st (in_stock_one_argument nbr) f = Inl (TypeError, st)"
  by (simp add: raise_in_def in_stock_one_argument_def)

text \<open>
  The loop body, with the call of line 79 evaluated: a neighbour that is a product, and
  is not the requested node, ends the query with \<^verbatim>\<open>TypeError\<close>; lines 80-88 are never
  reached.
\<close>

lemma visit_neighbor_unfold:
  "visit_neighbor q dst path st nbr =
     (if nbr \<in> set (s_visited st) then Inr st
      else case is_product nbr (s_graph st) of
             Inl e \<Rightarrow> Inl (e, st\<lparr>s_visited := s_visited st @ [nbr]\<rparr>)
           | Inr isprod \<Rightarrow>
               if isprod \<and> nbr \<noteq> q_requested q
               then Inl (TypeError, st\<lparr>s_visited := s_visited st @ [nbr]\<rparr>)
               else Inr (if dst + 1 \<le> 4
                         then st\<lparr>s_visited := s_visited st @ [nbr],
                                 s_queue := s_queue st @ [(nbr, dst + 1, path @ [nbr])],
                                 s_enqueued := s_enqueued st @ [(nbr, dst + 1)]\<rparr>
                         else st\<lparr>s_visited := s_visited st @ [nbr]\<rparr>))"
  apply (simp only: visit_neighbor_def Let_def in_stock_one_argument_raises)
  apply (simp add: raise_in_def split: sum.split)
  done

lemma visit_neighbor_Inr:
  assumes "visit_neighbor q dst path st nbr = Inr st'"
  shows "(nbr \<in> set (s_visited st) \<and> st' = st) \<or>
         (nbr \<notin> set (s_visited st) \<and> \<not> dst + 1 \<le> 4 \<and>
            st' = st\<lparr>s_visited := s_visited st @ [nbr]\<rparr>) \<or>
         (nbr \<notin> set (s_visited st) \<and> dst + 1 \<le> 4 \<and>
            st' = st\<lparr>s_visited := s_visited st @ [nbr],
                      s_queue := s_queue st @ [(nbr, dst + 1, path @ [nbr])],
                      s_enqueued := s_enqueued st @ [(nbr, dst + 1)]\<rparr>)"
  using assms
  by (simp add: visit_neighbor_unfold split: if_splits sum.splits)

lemma visit_neighbor_step:
  assumes "visit_neighbor q dst path st nbr = Inr st'"
  shows "s_graph st' = s_graph st"
    and "set (s_visited st) \<subseteq> set (s_visited st')"
    and "set (s_visited st') \<subseteq> insert nbr (set (s_visited st))"
    and "set (s_visited st') = set (s_visited st) \<Longrightarrow> s_queue st' = s_queue st"
proof -
  note h = visit_neighbor_Inr [OF assms]
  show "s_graph st' = s_graph st"
    using h by (elim disjE conjE) simp_all
  show "set (s_visited st) \<subseteq> set (s_visited st')"
    using h by (elim disjE conjE) auto
  show "set (s_visited st') \<subseteq> insert nbr (set (s_visited st))"
    using h by (elim disjE conjE) auto
  show "set (s_visited st') = set (s_visited st) \<Longrightarrow> s_queue st' = s_queue st"
    using h by (elim disjE conjE) auto
qed

lemma for_neighbors_step:
  assumes "for_neighbors q dst path nbrs st = Inr st'"
  shows "s_graph st' = s_graph st
       \<and> set (s_visited st) \<subseteq> set (s_visited st')
       \<and> set (s_visited st') \<subseteq> set nbrs \<union> set (s_visited st)
       \<and> (set (s_visited st') = set (s_visited st) \<longrightarrow> s_queue st' = s_queue st)"
  using assms
proof (induction nbrs arbitrary: st)
  case Nil
  then show ?case by simp
next
  case (Cons nbr nbrs)
  from Cons.prems obtain st1 where
    v: "visit_neighbor q dst path st nbr = Inr st1" and
    r: "for_neighbors q dst path nbrs st1 = Inr st'"
    by (auto split: sum.splits)
  note a = visit_neighbor_step [OF v]
  note b = Cons.IH [OF r]
  have "set (s_visited st') = set (s_visited st) \<Longrightarrow> s_queue st' = s_queue st"
  proof -
    assume eq: "set (s_visited st') = set (s_visited st)"
    with a(2) b have e1: "set (s_visited st1) = set (s_visited st)" by blast
    with eq b a(4) show ?thesis by simp
  qed
  with a b show ?case by auto
qed

function bfs_loop :: "query \<Rightarrow> bfs_state \<Rightarrow> outcome" where
  "bfs_loop q st =
     (case s_queue st of
        [] \<Rightarrow> Inr st
      | (node, dst, path) # rest \<Rightarrow>
          (case for_neighbors q dst path (neighbors (s_graph st) node) (st\<lparr>s_queue := rest\<rparr>) of
             Inl x \<Rightarrow> Inl x
           | Inr st' \<Rightarrow> bfs_loop q st'))"
  by pat_completeness auto
termination
proof (relation "measures [\<lambda>(q, st). card (set (node_ids (s_graph st)) - set (s_visited st)),
                           \<lambda>(q, st). length (s_queue st)]", goal_cases)
  case 1
  then show ?case by simp
next
  case (2 q st x21 x22 node y dst path st')
  let ?st0 = "st\<lparr>s_queue := x22\<rparr>"
  let ?U = "set (node_ids (s_graph st))"
  from 2 have run: "for_neighbors q dst path (neighbors (s_graph st) node) ?st0 = Inr st'"
    by simp
  note f = for_neighbors_step [OF run]
  from f have g: "s_graph st' = s_graph st" by simp
  from f have sub: "set (s_visited st) \<subseteq> set (s_visited st')" by simp
  from f neighbors_are_nodes [of "s_graph st" node]
  have new: "set (s_visited st') \<subseteq> ?U \<union> set (s_visited st)" by auto
  show ?case
  proof (cases "set (s_visited st') = set (s_visited st)")
    case True
    with f have "s_queue st' = x22" by simp
    with True g 2 show ?thesis by simp
  next
    case False
    with sub obtain n where n: "n \<in> set (s_visited st')" "n \<notin> set (s_visited st)" by blast
    with new have "n \<in> ?U" by blast
    with n sub have "?U - set (s_visited st') \<subset> ?U - set (s_visited st)" by blast
    then have "card (?U - set (s_visited st')) < card (?U - set (s_visited st))"
      by (simp add: psubset_card_mono)
    with g show ?thesis by simp
  qed
qed

subsection \<open>Ranking and the whole query\<close>

text \<open>
  \<^verbatim>\<open>sorted(candidates, key=lambda x: (-x["score"], get_price(x["product"], G)))\<close>.
  The keys are computed first. Two keys are compared as Python compares tuples: the
  first components decide when they differ; otherwise equal second components make the
  keys equal, two numbers are compared, and \<^verbatim>\<open>None\<close> against a number raises
  \<^verbatim>\<open>TypeError\<close>. The sort is stable and is modelled as an insertion sort from the left;
  which pairs of keys the sort of CPython compares is not modelled.
\<close>

type_synonym sort_key = "real \<times> real option"

fun keyed :: "graph \<Rightarrow> candidate list \<Rightarrow> error + (candidate \<times> sort_key) list" where
  "keyed G [] = Inr []"
| "keyed G (x # xs) =
     bind_err (get_price (c_product x) G) (\<lambda>p.
     bind_err (keyed G xs) (\<lambda>ks. Inr ((x, (- c_score x, p)) # ks)))"

fun key_lt :: "sort_key \<Rightarrow> sort_key \<Rightarrow> error + bool" where
  "key_lt (a, p) (b, r) =
     (if a \<noteq> b then Inr (a < b)
      else (case (p, r) of
              (None, None) \<Rightarrow> Inr False
            | (Some x, Some y) \<Rightarrow> Inr (x < y)
            | _ \<Rightarrow> Inl TypeError))"

fun insert_sorted ::
  "(candidate \<times> sort_key) \<Rightarrow> (candidate \<times> sort_key) list \<Rightarrow> error + (candidate \<times> sort_key) list" where
  "insert_sorted x [] = Inr [x]"
| "insert_sorted x (y # ys) =
     bind_err (key_lt (snd x) (snd y)) (\<lambda>less.
       if less then Inr (x # y # ys)
       else bind_err (insert_sorted x ys) (\<lambda>r. Inr (y # r)))"

fun sort_from ::
  "(candidate \<times> sort_key) list \<Rightarrow> (candidate \<times> sort_key) list \<Rightarrow> error + (candidate \<times> sort_key) list" where
  "sort_from placed [] = Inr placed"
| "sort_from placed (x # xs) = bind_err (insert_sorted x placed) (\<lambda>placed'. sort_from placed' xs)"

definition py_sorted :: "graph \<Rightarrow> candidate list \<Rightarrow> error + candidate list" where
  "py_sorted G cs =
     bind_err (keyed G cs) (\<lambda>ks.
     bind_err (sort_from [] ks) (\<lambda>sorted_ks. Inr (map fst sorted_ks)))"

text \<open>\<^verbatim>\<open>xs[:n]\<close>: a negative \<open>n\<close> counts from the end.\<close>

definition slice_to :: "int \<Rightarrow> 'a list \<Rightarrow> 'a list" where
  "slice_to n xs = (if 0 \<le> n then take (nat n) xs else take (length xs - nat (- n)) xs)"

text \<open>Lines 51-55: the test that the requested node itself answers the query.\<close>

definition requested_matches :: "graph \<Rightarrow> query \<Rightarrow> error + bool" where
  "requested_matches G q =
     bind_err (is_product (q_requested q) G) (\<lambda>isprod.
       if \<not> isprod then Inr False
       else bind_err (in_stock (q_requested q) G) (\<lambda>stock.
         if \<not> stock then Inr False else hard_filters G q (q_requested q)))"

text \<open>Lines 62-65: the state in which the \<^verbatim>\<open>while\<close> loop starts.\<close>

definition initial_state :: "graph \<Rightarrow> query \<Rightarrow> bfs_state" where
  "initial_state G q =
     \<lparr>s_graph = G,
      s_queue = [(q_requested q, 0, [q_requested q])],
      s_visited = [q_requested q],
      s_candidates = [],
      s_enqueued = [(q_requested q, 0)]\<rparr>"

definition traverse :: "graph \<Rightarrow> query \<Rightarrow> outcome" where
  "traverse G q = bfs_loop q (initial_state G q)"

text \<open>The exception a run raised, if any, and the state in which it ended.\<close>

definition raised :: "outcome \<Rightarrow> error option" where
  "raised r = (case r of Inl (e, st) \<Rightarrow> Some e | Inr st \<Rightarrow> None)"

definition final_state :: "outcome \<Rightarrow> bfs_state" where
  "final_state r = (case r of Inl (e, st) \<Rightarrow> st | Inr st \<Rightarrow> st)"

text \<open>
  The whole call, as a state transformer on the graph object: the value returned (or
  the exception raised) and the graph as the call leaves it.
\<close>

definition find_alternatives_st :: "graph \<Rightarrow> query \<Rightarrow> (error + result) \<times> graph" where
  "find_alternatives_st G q =
     (if \<not> has_node G (q_requested q) then (Inr Not_found, G)
      else (case requested_matches G q of
              Inl e \<Rightarrow> (Inl e, G)
            | Inr True \<Rightarrow> (Inr (Exact_match (q_requested q)), G)
            | Inr False \<Rightarrow>
                (case traverse G q of
                   Inl (e, st) \<Rightarrow> (Inl e, s_graph st)
                 | Inr st \<Rightarrow>
                     (case py_sorted (s_graph st) (s_candidates st) of
                        Inl e \<Rightarrow> (Inl e, s_graph st)
                      | Inr cs \<Rightarrow>
                          (Inr (Alternatives (slice_to (q_max_results q) cs)), s_graph st)))))"

definition find_alternatives :: "graph \<Rightarrow> query \<Rightarrow> error + result" where
  "find_alternatives G q = fst (find_alternatives_st G q)"

text \<open>Nodes within \<open>k\<close> hops of \<open>r\<close>, edges taken in both directions.\<close>

fun within_hops :: "graph \<Rightarrow> nat \<Rightarrow> node \<Rightarrow> node set" where
  "within_hops G 0 r = {r}"
| "within_hops G (Suc k) r = within_hops G k r \<union> (\<Union>n \<in> within_hops G k r. set (neighbors G n))"

text \<open>
  What holds of the state throughout a traversal from \<open>r\<close>: nothing was added twice to
  \<open>visited\<close> or to the queue, all that was enqueued was visited, every enqueued node has
  a depth of at most 4 and lies within that many hops of \<open>r\<close>, and every visited node
  lies within 5 hops of \<open>r\<close>.
\<close>

definition traversal_inv :: "node \<Rightarrow> bfs_state \<Rightarrow> bool" where
  "traversal_inv r st \<longleftrightarrow>
     distinct (s_visited st) \<and> distinct (map fst (s_enqueued st))
   \<and> set (map fst (s_enqueued st)) \<subseteq> set (s_visited st)
   \<and> list_all (\<lambda>(n, d). d \<le> 4 \<and> n \<in> within_hops (s_graph st) d r) (s_enqueued st)
   \<and> list_all (\<lambda>(n, d, p). d \<le> 4 \<and> n \<in> within_hops (s_graph st) d r) (s_queue st)
   \<and> set (s_visited st) \<subseteq> within_hops (s_graph st) 5 r"

text \<open>
  Some edge between \<open>x\<close> and \<open>y\<close>, in either direction and among all parallel edges, has
  the type \<^verbatim>\<open>SIMILAR_TO\<close>.
\<close>

definition direct_similar_edge :: "graph \<Rightarrow> node \<Rightarrow> node \<Rightarrow> bool" where
  "direct_similar_edge G x y =
     (\<exists>e \<in> set (edge_list G).
        (fst e = x \<and> fst (snd e) = y \<or> fst e = y \<and> fst (snd e) = x)
        \<and> map_of (snd (snd e)) ''type'' = Some ''SIMILAR_TO'')"

section \<open>Example graphs and queries\<close>

definition product_props ::
  "bool \<Rightarrow> real option \<Rightarrow> string option \<Rightarrow> string list \<Rightarrow> string option \<Rightarrow> props" where
  "product_props stock pr br tg cat =
     \<lparr>p_type = Some ''product'', p_price = pr, p_in_stock = Some stock, p_brand = br,
      p_tags = Some tg, p_category = cat\<rparr>"

text \<open>The query with every optional argument at its default.\<close>

definition plain_query :: "node \<Rightarrow> query" where
  "plain_query r = \<lparr>q_requested = r, q_max_price = None, q_required_tags = [],
     q_optional_brand = None, q_max_results = 3\<rparr>"

text \<open>One product, in stock, whose JSON gives no price.\<close>

definition kg_no_price :: graph where
  "kg_no_price = \<lparr>multigraph = False,
     node_attrs = [(''P1'', product_props True None (Some ''X'') [''fast''] (Some ''C1''))],
     edge_list = []\<rparr>"

text \<open>
  Two products of one category, as \<^verbatim>\<open>load_kg\<close> builds them: \<open>P1\<close> in stock or not,
  \<open>P2\<close> in stock or not.
\<close>

definition kg_two_products :: "bool \<Rightarrow> bool \<Rightarrow> graph" where
  "kg_two_products stock1 stock2 = \<lparr>multigraph = False,
     node_attrs =
       [(''P1'', product_props stock1 (Some 100) (Some ''X'') [''fast''] (Some ''C1'')),
        (''P2'', product_props stock2 (Some 80) (Some ''Y'') [''fast''] (Some ''C1'')),
        (''C1'', no_props\<lparr>p_type := Some ''category''\<rparr>)],
     edge_list =
       [(''P1'', ''C1'', [(''type'', ''IS_A'')]), (''P2'', ''C1'', [(''type'', ''IS_A'')])]\<rparr>"

text \<open>
  Products of one category with prices 100 and 150, and two products that have neither a
  brand nor a price.
\<close>

definition kg_prices :: graph where
  "kg_prices = \<lparr>multigraph = False,
     node_attrs =
       [(''P1'', product_props False (Some 100) (Some ''X'') [''fast''] (Some ''C1'')),
        (''P2'', product_props True (Some 150) (Some ''Y'') [] (Some ''C1'')),
        (''P3'', product_props True None None [] None),
        (''P4'', product_props True None None [] None)],
     edge_list =
       [(''P1'', ''C1'', [(''type'', ''IS_A'')]), (''P2'', ''C1'', [(''type'', ''IS_A'')])]\<rparr>"

text \<open>A chain of six edges between nodes that are not products.\<close>

definition kg_chain :: graph where
  "kg_chain = \<lparr>multigraph = False, node_attrs = [],
     edge_list =
       [(''R'', ''A'', [(''type'', ''RELATED'')]), (''A'', ''B'', [(''type'', ''RELATED'')]),
        (''B'', ''C'', [(''type'', ''RELATED'')]), (''C'', ''D'', [(''type'', ''RELATED'')]),
        (''D'', ''E'', [(''type'', ''RELATED'')]), (''E'', ''F'', [(''type'', ''RELATED'')])]\<rparr>"

text \<open>
  A requested product that is out of stock and three products of its category and brand,
  in stock, at three prices.
\<close>

definition kg_three_alternatives :: graph where
  "kg_three_alternatives = \<lparr>multigraph = False,
     node_attrs =
       [(''P0'', product_props False (Some 100) (Some ''X'') [] (Some ''C1'')),
        (''P1'', product_props True (Some 90) (Some ''X'') [] (Some ''C1'')),
        (''P2'', product_props True (Some 70) (Some ''X'') [] (Some ''C1'')),
        (''P3'', product_props True (Some 80) (Some ''X'') [] (Some ''C1''))],
     edge_list =
       [(''P0'', ''C1'', [(''type'', ''IS_A'')]), (''P1'', ''C1'', [(''type'', ''IS_A'')]),
        (''P2'', ''C1'', [(''type'', ''IS_A'')]), (''P3'', ''C1'', [(''type'', ''IS_A'')])]\<rparr>"

text \<open>
  Two categories joined by a \<^verbatim>\<open>SIMILAR_TO\<close> edge, as \<^verbatim>\<open>load_kg\<close> builds them, and a
  multigraph with parallel edges between them.
\<close>

definition kg_similar_digraph :: graph where
  "kg_similar_digraph = \<lparr>multigraph = False, node_attrs = [],
     edge_list = [(''C1'', ''C2'', [(''type'', ''SIMILAR_TO'')])]\<rparr>"

definition kg_similar_multi :: graph where
  "kg_similar_multi = \<lparr>multigraph = True, node_attrs = [],
     edge_list = [(''C1'', ''C2'', [(''type'', ''RELATED'')]),
                  (''C1'', ''C2'', [(''type'', ''SIMILAR_TO'')]),
                  (''C2'', ''C3'', [(''type'', ''RELATED'')])]\<rparr>"

text \<open>
  Two products whose categories differ and are joined by a \<^verbatim>\<open>SIMILAR_TO\<close> edge, as
  \<^verbatim>\<open>load_kg\<close> builds them.
\<close>

definition kg_related_products :: graph where
  "kg_related_products = \<lparr>multigraph = False,
     node_attrs =
       [(''P1'', product_props False (Some 100) (Some ''X'') [''fast''] (Some ''C1'')),
        (''P2'', product_props True (Some 150) (Some ''X'') [''fast''] (Some ''C2'')),
        (''C1'', no_props\<lparr>p_type := Some ''category''\<rparr>),
        (''C2'', no_props\<lparr>p_type := Some ''category''\<rparr>)],
     edge_list =
       [(''P1'', ''C1'', [(''type'', ''IS_A'')]), (''P2'', ''C2'', [(''type'', ''IS_A'')]),
        (''C1'', ''C2'', [(''type'', ''SIMILAR_TO'')])]\<rparr>"

section \<open>The requested product\<close>

text \<open>
  C3. \<^verbatim>\<open>find_alternatives\<close> returns the not-found error exactly when the requested id
  is not a node of the graph; the value returned is then the error alone: neither an
  exact match nor a list of alternatives.
\<close>

theorem not_found_iff:
  "find_alternatives G q = Inr Not_found \<longleftrightarrow> \<not> has_node G (q_requested q)"
  by (simp add: find_alternatives_def find_alternatives_st_def
      split: sum.split bool.split prod.split)

text \<open>
  C2. When the requested id is a node of the graph, is a product, is in stock, has a
  price that is at most \<^verbatim>\<open>max_price\<close> when that is set, carries every required tag and
  has the brand \<^verbatim>\<open>optional_brand\<close> when that is set, \<^verbatim>\<open>find_alternatives\<close> returns the
  exact match with the requested id. The value is returned before the traversal starts
  and holds no list of alternatives.
\<close>

theorem exact_match_short_circuit:
  assumes "has_node G (q_requested q)"
    and "is_product (q_requested q) G = Inr True"
    and "in_stock (q_requested q) G = Inr True"
    and "\<And>m. q_max_price q = Some m \<Longrightarrow>
           \<exists>x. get_price (q_requested q) G = Inr (Some x) \<and> x \<le> m"
    and "\<exists>ts. get_tags (q_requested q) G = Inr ts \<and> set (q_required_tags q) \<subseteq> ts"
    and "\<And>b. q_optional_brand q = Some b \<Longrightarrow> get_brand (q_requested q) G = Inr (Some b)"
  shows "find_alternatives G q = Inr (Exact_match (q_requested q))"
proof -
  have price: "(case q_max_price q of None \<Rightarrow> Inr True
                | Some m \<Rightarrow> bind_err (get_price (q_requested q) G) (\<lambda>p. py_le p m)) = Inr True"
    using assms(4) by (cases "q_max_price q") (auto simp: bind_err_def py_le_def)
  have brand: "(case q_optional_brand q of None \<Rightarrow> Inr True
                | Some b \<Rightarrow> bind_err (get_brand (q_requested q) G) (\<lambda>x. Inr (x = Some b))) = Inr True"
    using assms(6) by (cases "q_optional_brand q") (auto simp: bind_err_def)
  from assms(5) obtain ts where
    ts: "get_tags (q_requested q) G = Inr ts" "set (q_required_tags q) \<subseteq> ts" by blast
  have "hard_filters G q (q_requested q) = Inr True"
    unfolding hard_filters_def price brand using ts by (simp add: bind_err_def)
  then have "requested_matches G q = Inr True"
    using assms(2,3) by (simp add: requested_matches_def bind_err_def)
  with assms(1) show ?thesis by (simp add: find_alternatives_def find_alternatives_st_def)
qed

theorem exact_match_short_circuit_witness:
  "find_alternatives (kg_two_products True True)
     \<lparr>q_requested = ''P1'', q_max_price = Some 120, q_required_tags = [''fast''],
      q_optional_brand = Some ''X'', q_max_results = 3\<rparr> = Inr (Exact_match ''P1'')
   \<and> raised (traverse (kg_two_products True True) (plain_query ''P1'')) = Some TypeError"
proof -
  let ?G = "kg_two_products True True"
  let ?q = "\<lparr>q_requested = ''P1'', q_max_price = Some 120, q_required_tags = [''fast''],
      q_optional_brand = Some ''X'', q_max_results = 3\<rparr>"
  have 1: "has_node ?G (q_requested ?q)" by code_simp
  have 2: "is_product (q_requested ?q) ?G = Inr True" by code_simp
  have 3: "in_stock (q_requested ?q) ?G = Inr True" by code_simp
  have p: "get_price (q_requested ?q) ?G = Inr (Some 100)" by code_simp
  have 4: "\<And>m. q_max_price ?q = Some m \<Longrightarrow>
           \<exists>x. get_price (q_requested ?q) ?G = Inr (Some x) \<and> x \<le> m"
    using p by auto
  have t: "get_tags (q_requested ?q) ?G = Inr {''fast''}" by code_simp
  have 5: "\<exists>ts. get_tags (q_requested ?q) ?G = Inr ts \<and> set (q_required_tags ?q) \<subseteq> ts"
    using t by simp
  have b: "get_brand (q_requested ?q) ?G = Inr (Some ''X'')" by code_simp
  have 6: "\<And>b. q_optional_brand ?q = Some b \<Longrightarrow> get_brand (q_requested ?q) ?G = Inr (Some b)"
    using b by simp
  have "find_alternatives ?G ?q = Inr (Exact_match (q_requested ?q))"
    by (rule exact_match_short_circuit [OF 1 2 3 4 5 6])
  moreover have "raised (traverse ?G (plain_query ''P1'')) = Some TypeError"
    by code_simp
  ultimately show ?thesis by simp
qed

section \<open>Missing prices\<close>

text \<open>
  C8. A missing price must never make a query fail. The scoring rule guards its
  comparison with \<^verbatim>\<open>is not None\<close>; the hard filter of line 52 does not: for a requested
  product that is in stock and has no price, a query with \<^verbatim>\<open>max_price\<close> set compares
  \<^verbatim>\<open>None <= max_price\<close> and the call ends with \<^verbatim>\<open>TypeError\<close>.
\<close>

theorem missing_price_raises:
  "find_alternatives kg_no_price ((plain_query ''P1'')\<lparr>q_max_price := Some 50\<rparr>) = Inl TypeError"
  by code_simp

section \<open>The scoring rules\<close>

lemma accessor_simps:
  assumes "nodes_getitem G n = Inr p"
  shows "get_category n G = Inr (p_category p)"
    and "get_brand n G = Inr (p_brand p)"
    and "get_price n G = Inr (p_price p)"
    and "get_tags n G = Inr (case p_tags p of None \<Rightarrow> {} | Some ts \<Rightarrow> set ts)"
  using assms
  by (simp_all add: get_category_def get_brand_def get_price_def get_tags_def bind_err_def)

lemma category_block_nodes:
  assumes "category_block G r c acc = Inr x"
  shows "\<exists>p p'. nodes_getitem G r = Inr p \<and> nodes_getitem G c = Inr p'"
  using assms
  by (cases "nodes_getitem G r"; cases "nodes_getitem G c")
     (simp_all add: category_block_def get_category_def bind_err_def)

lemma category_block_shift:
  assumes "category_block G r c (0, []) = Inr (d, rs)"
  shows "category_block G r c acc = Inr (fst acc + d, snd acc @ rs)" and "length rs \<le> 1"
proof -
  from category_block_nodes [OF assms] obtain p p' where
    n: "nodes_getitem G r = Inr p" "nodes_getitem G c = Inr p'" by blast
  note a = accessor_simps(1) [OF n(1)] accessor_simps(1) [OF n(2)]
  show "category_block G r c acc = Inr (fst acc + d, snd acc @ rs)"
    using assms
    by (cases "categories_are_similar G (p_category p) (p_category p')")
       (auto simp: category_block_def a bind_err_def split: if_splits)
  show "length rs \<le> 1"
    using assms
    by (cases "categories_are_similar G (p_category p) (p_category p')")
       (auto simp: category_block_def a bind_err_def split: if_splits)
qed

lemma brand_block_shift:
  assumes "nodes_getitem G r = Inr p" and "nodes_getitem G c = Inr p'"
  shows "\<exists>d rs. length rs \<le> 1 \<and>
           (\<forall>acc. brand_block G r c ob acc = Inr (fst acc + d, snd acc @ rs))"
proof -
  note a = accessor_simps(2) [OF assms(1)] accessor_simps(2) [OF assms(2)]
  consider (m) "truthy ob" "p_brand p' = ob" | (d) "truthy ob" "p_brand p' \<noteq> ob"
    | (s) "\<not> truthy ob" "p_brand p' = p_brand p" | (n) "\<not> truthy ob" "p_brand p' \<noteq> p_brand p"
    by blast
  then show ?thesis
  proof cases
    case m
    then have "\<forall>acc. brand_block G r c ob acc = Inr (fst acc + 1, snd acc @ [Brand_match])"
      by (simp add: brand_block_def a bind_err_def)
    then show ?thesis by (intro exI [of _ 1] exI [of _ "[Brand_match]"]) simp
  next
    case d
    then have "\<forall>acc. brand_block G r c ob acc = Inr (fst acc + 0, snd acc @ [Different_brand])"
      by (simp add: brand_block_def a bind_err_def)
    then show ?thesis by (intro exI [of _ 0] exI [of _ "[Different_brand]"]) simp
  next
    case s
    then have "\<forall>acc. brand_block G r c ob acc = Inr (fst acc + 1 / 2, snd acc @ [Same_brand])"
      by (simp add: brand_block_def a bind_err_def)
    then show ?thesis by (intro exI [of _ "1 / 2"] exI [of _ "[Same_brand]"]) simp
  next
    case n
    then have "\<forall>acc. brand_block G r c ob acc = Inr (fst acc + 0, snd acc @ [])"
      by (simp add: brand_block_def a bind_err_def)
    then show ?thesis by (intro exI [of _ 0] exI [of _ "[]"]) simp
  qed
qed

lemma tags_block_shift:
  assumes "nodes_getitem G c = Inr p'"
  shows "\<exists>d rs. length rs \<le> 1 \<and>
           (\<forall>acc. tags_block G c tags acc = Inr (fst acc + d, snd acc @ rs))"
proof -
  note a = accessor_simps(4) [OF assms]
  let ?ct = "case p_tags p' of None \<Rightarrow> {} | Some ts \<Rightarrow> set ts"
  consider (e) "set tags = {}" | (f) "set tags \<noteq> {}" "set tags \<inter> ?ct = set tags"
    | (g) "set tags \<noteq> {}" "set tags \<inter> ?ct \<noteq> set tags" by blast
  then show ?thesis
  proof cases
    case e
    then have "\<forall>acc. tags_block G c tags acc = Inr (fst acc + 0, snd acc @ [])"
      by (simp add: tags_block_def a bind_err_def)
    then show ?thesis by (intro exI [of _ 0] exI [of _ "[]"]) simp
  next
    case f
    then have "\<forall>acc. tags_block G c tags acc = Inr (fst acc + 2, snd acc @ [All_required_tags_matched])"
      by (simp add: tags_block_def a bind_err_def Let_def)
    then show ?thesis by (intro exI [of _ 2] exI [of _ "[All_required_tags_matched]"]) simp
  next
    case g
    then have "\<forall>acc. tags_block G c tags acc =
        Inr (fst acc + (1 / 2) * real (card (set tags \<inter> ?ct)),
             snd acc @ [Missing_tags (sorted_list_of_set (set tags - set tags \<inter> ?ct))])"
      by (simp add: tags_block_def a bind_err_def Let_def)
    then show ?thesis
      by (intro exI [of _ "(1 / 2) * real (card (set tags \<inter> ?ct))"]
                exI [of _ "[Missing_tags (sorted_list_of_set (set tags - set tags \<inter> ?ct))]"]) simp
  qed
qed

lemma price_block_value:
  assumes "nodes_getitem G r = Inr p" and "nodes_getitem G c = Inr p'"
  shows "price_block G r c acc =
     Inr (case (p_price p, p_price p') of
            (Some a, Some b) \<Rightarrow>
              if b \<le> a then (fst acc + 1, snd acc @ [Cheaper_or_equal_price])
              else (fst acc - (1 / 2) * ((b - a) / max 1 a), snd acc @ [More_expensive])
          | _ \<Rightarrow> acc)"
  by (simp add: price_block_def accessor_simps(3) [OF assms(1)] accessor_simps(3) [OF assms(2)]
      bind_err_def split: option.split)

lemma price_block_shift:
  assumes "nodes_getitem G r = Inr p" and "nodes_getitem G c = Inr p'"
  shows "\<exists>d rs. length rs \<le> 1 \<and>
           (\<forall>acc. price_block G r c acc = Inr (fst acc + d, snd acc @ rs)) \<and>
           (\<forall>a b. p_price p = Some a \<and> p_price p' = Some b \<and> a < b \<longrightarrow>
               d = - (1 / 2) * ((b - a) / max 1 a) \<and> rs = [More_expensive])"
proof (cases "p_price p")
  case None
  then have "\<forall>acc. price_block G r c acc = Inr (fst acc + 0, snd acc @ [])"
    by (simp add: price_block_value [OF assms])
  with None show ?thesis by (intro exI [of _ 0] exI [of _ "[]"]) simp
next
  case (Some a)
  show ?thesis
  proof (cases "p_price p'")
    case None
    with Some have "\<forall>acc. price_block G r c acc = Inr (fst acc + 0, snd acc @ [])"
      by (simp add: price_block_value [OF assms])
    with None show ?thesis by (intro exI [of _ 0] exI [of _ "[]"]) simp
  next
    case (Some b)
    show ?thesis
    proof (cases "b \<le> a")
      case True
      with Some \<open>p_price p = Some a\<close>
      have "\<forall>acc. price_block G r c acc = Inr (fst acc + 1, snd acc @ [Cheaper_or_equal_price])"
        by (simp add: price_block_value [OF assms])
      with True Some \<open>p_price p = Some a\<close> show ?thesis
        by (intro exI [of _ 1] exI [of _ "[Cheaper_or_equal_price]"]) simp
    next
      case False
      with Some \<open>p_price p = Some a\<close>
      have "\<forall>acc. price_block G r c acc =
          Inr (fst acc + (- (1 / 2) * ((b - a) / max 1 a)), snd acc @ [More_expensive])"
        by (simp add: price_block_value [OF assms])
      with False Some \<open>p_price p = Some a\<close> show ?thesis
        by (intro exI [of _ "- (1 / 2) * ((b - a) / max 1 a)"] exI [of _ "[More_expensive]"]) simp
    qed
  qed
qed

text \<open>
  What \<^verbatim>\<open>score_candidate\<close> computes whenever its category block returns. Each block
  contributes an amount and at most one reason code that do not depend on what the
  earlier blocks accumulated (the contribution is what the block makes of the empty
  accumulator); the score returned is the sum of the four amounts, which may be
  negative, and the reasons returned are the four reason lists in block order. When
  both prices are defined and the candidate costs more than the requested product, the
  price block contributes \<open>- 0.5 * (candidate_price - requested_price) /
  max 1 requested_price\<close> with the reason \<^verbatim>\<open>more_expensive\<close>; for 150 against 100 that is
  \<open>- 0.25\<close>.
\<close>

lemma score_is_sum_of_rules:
  assumes "category_block G requested candidate (0, []) = Inr (d1, r1)"
  shows "\<exists>d2 r2 d3 r3 d4 r4.
           brand_block G requested candidate optional_brand (0, []) = Inr (d2, r2)
         \<and> tags_block G candidate required_tags (0, []) = Inr (d3, r3)
         \<and> price_block G requested candidate (0, []) = Inr (d4, r4)
         \<and> score_candidate G requested candidate required_tags optional_brand =
             Inr (d1 + d2 + d3 + d4, r1 @ r2 @ r3 @ r4)
         \<and> length r1 \<le> 1 \<and> length r2 \<le> 1 \<and> length r3 \<le> 1 \<and> length r4 \<le> 1
         \<and> (\<forall>a b. get_price requested G = Inr (Some a) \<and> get_price candidate G = Inr (Some b)
                 \<and> a < b \<longrightarrow>
               d4 = - (1 / 2) * ((b - a) / max 1 a) \<and> r4 = [More_expensive])"
proof -
  from category_block_nodes [OF assms] obtain p p' where
    n: "nodes_getitem G requested = Inr p" "nodes_getitem G candidate = Inr p'" by blast
  from brand_block_shift [OF n, of optional_brand] obtain d2 r2 where
    b: "length r2 \<le> 1"
       "\<And>acc. brand_block G requested candidate optional_brand acc = Inr (fst acc + d2, snd acc @ r2)"
    by blast
  from tags_block_shift [OF n(2), of required_tags] obtain d3 r3 where
    t: "length r3 \<le> 1"
       "\<And>acc. tags_block G candidate required_tags acc = Inr (fst acc + d3, snd acc @ r3)"
    by blast
  from price_block_shift [OF n] obtain d4 r4 where
    pr: "length r4 \<le> 1"
       "\<And>acc. price_block G requested candidate acc = Inr (fst acc + d4, snd acc @ r4)"
       "\<And>a b. p_price p = Some a \<Longrightarrow> p_price p' = Some b \<Longrightarrow> a < b \<Longrightarrow>
               d4 = - (1 / 2) * ((b - a) / max 1 a) \<and> r4 = [More_expensive]"
    by blast
  have s: "score_candidate G requested candidate required_tags optional_brand =
             Inr (d1 + d2 + d3 + d4, r1 @ r2 @ r3 @ r4)"
    by (simp add: score_candidate_def assms bind_err_def b(2) t(2) pr(2))
  have pf: "\<forall>a b. get_price requested G = Inr (Some a) \<and> get_price candidate G = Inr (Some b)
                 \<and> a < b \<longrightarrow>
               d4 = - (1 / 2) * ((b - a) / max 1 a) \<and> r4 = [More_expensive]"
    using pr(3) by (simp add: accessor_simps(3) [OF n(1)] accessor_simps(3) [OF n(2)])
  have "brand_block G requested candidate optional_brand (0, []) = Inr (d2, r2)"
    by (simp add: b(2))
  moreover have "tags_block G candidate required_tags (0, []) = Inr (d3, r3)"
    by (simp add: t(2))
  moreover have "price_block G requested candidate (0, []) = Inr (d4, r4)"
    by (simp add: pr(2))
  ultimately show ?thesis
    using s pf b(1) t(1) pr(1) category_block_shift(2) [OF assms] by blast
qed


lemma score_is_sum_of_rules_at_prices:
  "category_block kg_prices ''P1'' ''P2'' (0, []) = Inr (3, [Same_category])
   \<and> price_block kg_prices ''P1'' ''P2'' (0, []) = Inr (- (1 / 4), [More_expensive])
   \<and> score_candidate kg_prices ''P1'' ''P2'' [''waterproof''] None =
        Inr (11 / 4, [Same_category, Missing_tags [''waterproof''], More_expensive])"
proof -
  have c: "category_block kg_prices ''P1'' ''P2'' (0, []) = Inr (3, [Same_category])"
    by code_simp
  have b: "brand_block kg_prices ''P1'' ''P2'' None (0, []) = Inr (0, [])"
    by code_simp
  have t: "tags_block kg_prices ''P2'' [''waterproof''] (0, []) = Inr (0, [Missing_tags [''waterproof'']])"
    by code_simp
  have p: "price_block kg_prices ''P1'' ''P2'' (0, []) = Inr (- (1 / 4), [More_expensive])"
    by code_simp
  from score_is_sum_of_rules [OF c, of None "[''waterproof'']"] b t p
  have "score_candidate kg_prices ''P1'' ''P2'' [''waterproof''] None =
        Inr (3 + 0 + 0 + - (1 / 4), [Same_category] @ [] @ [Missing_tags [''waterproof'']] @ [More_expensive])"
    by auto
  with c p show ?thesis by simp
qed

text \<open>
  C4. For every graph and every pair of its nodes \<^verbatim>\<open>score_candidate\<close> must run its
  four rules in order, none of them cutting the others short, and return the sum of
  their contributions with the reasons in rule order. \<open>P1\<close> and \<open>P2\<close> have the
  categories \<open>C1\<close> and \<open>C2\<close>, joined by a \<^verbatim>\<open>SIMILAR_TO\<close> edge: the category rule should
  add 1.5 with the reason \<^verbatim>\<open>related_category\<close>, then the brand rule 0.5 and the price
  rule \<open>- 0.25\<close>. The call of \<^verbatim>\<open>categories_are_similar\<close> in line 113 raises
  \<^verbatim>\<open>AttributeError\<close> instead (lines 167-168, outside the \<^verbatim>\<open>try\<close> of the price rule), so
  the brand, tag and price rules never run and no score is returned.
\<close>

theorem related_category_score_raises:
  "score_candidate kg_related_products ''P1'' ''P2'' [] None = Inl AttributeError"
  by code_simp

text \<open>
  C10. With \<^verbatim>\<open>optional_brand\<close> unset and neither the requested node nor the candidate
  having a brand, the brand block compares \<^verbatim>\<open>None == None\<close>: it adds 0.5 to the score
  and appends the reason \<^verbatim>\<open>same_brand\<close>.
\<close>

theorem absent_brands_count_as_same:
  assumes "get_brand requested G = Inr None" and "get_brand candidate G = Inr None"
  shows "brand_block G requested candidate None acc = Inr (fst acc + 1 / 2, snd acc @ [Same_brand])"
  using assms by (simp add: brand_block_def truthy_def bind_err_def)

theorem absent_brands_count_as_same_witness:
  "get_brand ''P3'' kg_prices = Inr None \<and> get_brand ''P4'' kg_prices = Inr None
   \<and> brand_block kg_prices ''P3'' ''P4'' None (0, []) = Inr (1 / 2, [Same_brand])
   \<and> score_candidate kg_prices ''P3'' ''P4'' [] None = Inr (1 / 2, [Same_brand])"
proof -
  have 1: "get_brand ''P3'' kg_prices = Inr None" by code_simp
  have 2: "get_brand ''P4'' kg_prices = Inr None" by code_simp
  have 3: "score_candidate kg_prices ''P3'' ''P4'' [] None = Inr (1 / 2, [Same_brand])" by code_simp
  from absent_brands_count_as_same [OF 1 2, of "(0, [])"] 1 2 3 show ?thesis by simp
qed


section \<open>The traversal\<close>

lemma visit_neighbor_cases:
  obtains (seen) "nbr \<in> set (s_visited st)" "visit_neighbor q dst path st nbr = Inr st"
  | (raise) e where "nbr \<notin> set (s_visited st)"
      "visit_neighbor q dst path st nbr = Inl (e, st\<lparr>s_visited := s_visited st @ [nbr]\<rparr>)"
  | (deep) "nbr \<notin> set (s_visited st)" "\<not> dst + 1 \<le> 4"
      "visit_neighbor q dst path st nbr = Inr (st\<lparr>s_visited := s_visited st @ [nbr]\<rparr>)"
  | (enqueue) "nbr \<notin> set (s_visited st)" "dst + 1 \<le> 4"
      "visit_neighbor q dst path st nbr =
         Inr (st\<lparr>s_visited := s_visited st @ [nbr],
                  s_queue := s_queue st @ [(nbr, dst + 1, path @ [nbr])],
                  s_enqueued := s_enqueued st @ [(nbr, dst + 1)]\<rparr>)"
proof (cases "nbr \<in> set (s_visited st)")
  case True
  then show ?thesis using seen by (simp add: visit_neighbor_unfold)
next
  case False
  show ?thesis
  proof (cases "is_product nbr (s_graph st)")
    case (Inl e)
    with False show ?thesis using raise by (simp add: visit_neighbor_unfold)
  next
    case (Inr isprod)
    show ?thesis
    proof (cases "isprod \<and> nbr \<noteq> q_requested q")
      case True
      with False Inr show ?thesis using raise by (simp add: visit_neighbor_unfold)
    next
      case np: False
      show ?thesis
      proof (cases "dst + 1 \<le> 4")
        case True
        with False Inr np show ?thesis using enqueue by (simp add: visit_neighbor_unfold)
      next
        case d: False
        with False Inr np show ?thesis using deep by (simp add: visit_neighbor_unfold)
      qed
    qed
  qed
qed

lemma within_hops_mono: "within_hops G k r \<subseteq> within_hops G (k + j) r"
  by (induction j) auto

lemma within_hops_le: "k \<le> m \<Longrightarrow> within_hops G k r \<subseteq> within_hops G m r"
  using within_hops_mono [of G k r "m - k"] by simp

lemma within_hops_step:
  "n \<in> within_hops G k r \<Longrightarrow> m \<in> set (neighbors G n) \<Longrightarrow> m \<in> within_hops G (Suc k) r"
  by auto

lemma visit_neighbor_frame:
  "s_graph (final_state (visit_neighbor q dst path st nbr)) = s_graph st \<and>
   s_candidates (final_state (visit_neighbor q dst path st nbr)) = s_candidates st"
  by (cases rule: visit_neighbor_cases [of nbr st q dst path]) (simp_all add: final_state_def)

lemma visit_neighbor_inv:
  assumes "traversal_inv r st" and "dst \<le> 4"
    and "node \<in> within_hops (s_graph st) dst r"
    and "nbr \<in> set (neighbors (s_graph st) node)"
  shows "traversal_inv r (final_state (visit_neighbor q dst path st nbr))"
proof -
  have near: "nbr \<in> within_hops (s_graph st) (Suc dst) r"
    using assms(3,4) by (rule within_hops_step)
  have "Suc dst \<le> 5" using assms(2) by simp
  from within_hops_le [OF this] near
  have far: "nbr \<in> within_hops (s_graph st) 5 r" by blast
  show ?thesis
  proof (cases rule: visit_neighbor_cases [of nbr st q dst path])
    case seen
    with assms(1) show ?thesis by (simp add: final_state_def)
  next
    case (raise e)
    with assms(1) far show ?thesis
      by (simp add: final_state_def traversal_inv_def subset_iff)
  next
    case deep
    with assms(1) far show ?thesis
      by (simp add: final_state_def traversal_inv_def subset_iff)
  next
    case enqueue
    from assms(1) enqueue(1) have "nbr \<notin> fst ` set (s_enqueued st)"
      by (auto simp: traversal_inv_def)
    with enqueue assms(1) far near show ?thesis
      by (simp add: final_state_def traversal_inv_def subset_iff)
  qed
qed

lemma for_neighbors_inv:
  assumes "traversal_inv r st" and "dst \<le> 4"
    and "node \<in> within_hops (s_graph st) dst r"
    and "set nbrs \<subseteq> set (neighbors (s_graph st) node)"
  shows "traversal_inv r (final_state (for_neighbors q dst path nbrs st))
       \<and> s_graph (final_state (for_neighbors q dst path nbrs st)) = s_graph st
       \<and> s_candidates (final_state (for_neighbors q dst path nbrs st)) = s_candidates st"
  using assms
proof (induction nbrs arbitrary: st)
  case Nil
  then show ?case by (simp add: final_state_def)
next
  case (Cons nbr nbrs)
  from Cons.prems have nb: "nbr \<in> set (neighbors (s_graph st) node)" by simp
  note i = visit_neighbor_inv [OF Cons.prems(1,2,3) nb, of q path]
  note f = visit_neighbor_frame [of q dst path st nbr]
  show ?case
  proof (cases "visit_neighbor q dst path st nbr")
    case (Inl x)
    with i f show ?thesis by simp
  next
    case (Inr st')
    with i f have i': "traversal_inv r st'" and g: "s_graph st' = s_graph st"
      and c: "s_candidates st' = s_candidates st"
      by (simp_all add: final_state_def)
    from Cons.prems g have "node \<in> within_hops (s_graph st') dst r"
      and "set nbrs \<subseteq> set (neighbors (s_graph st') node)" by simp_all
    from Cons.IH [OF i' Cons.prems(2) this] Inr g c show ?thesis by simp
  qed
qed


lemma bfs_loop_inv:
  "traversal_inv r st \<Longrightarrow>
     traversal_inv r (final_state (bfs_loop q st))
   \<and> s_graph (final_state (bfs_loop q st)) = s_graph st
   \<and> s_candidates (final_state (bfs_loop q st)) = s_candidates st"
proof (induction q st rule: bfs_loop.induct)
  case (1 q st)
  show ?case
  proof (cases "s_queue st")
    case Nil
    with "1.prems" show ?thesis by (subst (1 2 3) bfs_loop.simps) (simp add: final_state_def)
  next
    case (Cons entry rest)
    obtain node dst path where entry: "entry = (node, dst, path)" by (cases entry)
    let ?st0 = "st\<lparr>s_queue := rest\<rparr>"
    let ?run = "for_neighbors q dst path (neighbors (s_graph st) node) ?st0"
    from "1.prems" Cons entry have d: "dst \<le> 4" and n: "node \<in> within_hops (s_graph st) dst r"
      by (simp_all add: traversal_inv_def)
    from "1.prems" Cons have i0: "traversal_inv r ?st0" by (simp add: traversal_inv_def)
    have "traversal_inv r (final_state ?run) \<and> s_graph (final_state ?run) = s_graph ?st0
        \<and> s_candidates (final_state ?run) = s_candidates ?st0"
    proof (rule for_neighbors_inv [OF i0 d])
      show "node \<in> within_hops (s_graph ?st0) dst r" using n by simp
      show "set (neighbors (s_graph st) node) \<subseteq> set (neighbors (s_graph ?st0) node)"
        by simp
    qed
    then have fr: "traversal_inv r (final_state ?run)" "s_graph (final_state ?run) = s_graph st"
      "s_candidates (final_state ?run) = s_candidates st" by simp_all
    show ?thesis
    proof (cases ?run)
      case (Inl x)
      then have "bfs_loop q st = Inl x"
        using Cons entry by (subst bfs_loop.simps) simp
      with fr Inl show ?thesis by simp
    next
      case (Inr st')
      then have eq: "bfs_loop q st = bfs_loop q st'"
        using Cons entry by (subst bfs_loop.simps) simp
      from fr Inr have i': "traversal_inv r st'" and g: "s_graph st' = s_graph st"
        and c: "s_candidates st' = s_candidates st" by (simp_all add: final_state_def)
      from "1.IH" [OF Cons entry [symmetric] refl Inr i'] eq g c show ?thesis by simp
    qed
  qed
qed

lemma initial_inv: "traversal_inv (q_requested q) (initial_state G q)"
proof -
  have "q_requested q \<in> within_hops G 0 (q_requested q)" by simp
  with within_hops_le [of 0 5 G "q_requested q"]
  have "q_requested q \<in> within_hops G 5 (q_requested q)" by blast
  then show ?thesis by (simp add: traversal_inv_def initial_state_def)
qed

lemma traverse_final:
  "traversal_inv (q_requested q) (final_state (traverse G q))
   \<and> s_graph (final_state (traverse G q)) = G
   \<and> s_candidates (final_state (traverse G q)) = []"
  using bfs_loop_inv [OF initial_inv [of q G], of q]
  by (simp add: traverse_def initial_state_def)

lemma py_sorted_Nil: "py_sorted G [] = Inr []"
  by (simp add: py_sorted_def bind_err_def)

lemma alternatives_always_empty:
  assumes "find_alternatives G q = Inr (Alternatives alts)"
  shows "alts = []"
proof -
  note t = traverse_final [of q G]
  show ?thesis
  proof (cases "traverse G q")
    case (Inl x)
    with assms show ?thesis
      by (simp add: find_alternatives_def find_alternatives_st_def
          split: if_splits sum.splits bool.splits prod.splits)
  next
    case (Inr st)
    with t have "s_candidates st = []" by (simp add: final_state_def)
    with assms Inr show ?thesis
      by (simp add: find_alternatives_def find_alternatives_st_def py_sorted_Nil slice_to_def
          split: if_splits sum.splits bool.splits)
  qed
qed

text \<open>
  C9. A call of \<^verbatim>\<open>find_alternatives\<close> leaves the graph as it was: the graph that the
  call hands back, whatever it returns or raises, equals the graph it was given, with
  every node, attribute, edge and edge type. The traversal carries the graph in its
  state and no step writes to it; \<^verbatim>\<open>score_candidate\<close> and \<^verbatim>\<open>categories_are_similar\<close>
  only read the graph and are functions of it.
\<close>

theorem graph_unchanged: "snd (find_alternatives_st G q) = G"
proof -
  note t = traverse_final [of q G]
  show ?thesis
  proof (cases "traverse G q")
    case (Inl x)
    obtain e st where x: "x = (e, st)" by (cases x)
    with t Inl have "s_graph st = G" by (simp add: final_state_def)
    with Inl x show ?thesis
      by (simp add: find_alternatives_st_def split: sum.splits bool.splits)
  next
    case (Inr st)
    with t have "s_graph st = G" by (simp add: final_state_def)
    with Inr show ?thesis
      by (simp add: find_alternatives_st_def split: sum.splits bool.splits)
  qed
qed

text \<open>
  C6, as amended. During one query no node is added to the visited set more than once
  and no node is enqueued more than once; every enqueued node has a depth of at most 4
  and lies within 4 hops of the requested node; every visited node lies within 5 hops of
  the requested node. This holds of the state in which the traversal ends, whether it
  returned or raised, and both logs only grow.
\<close>

theorem traversal_bounds:
  "distinct (s_visited (final_state (traverse G q)))
   \<and> distinct (map fst (s_enqueued (final_state (traverse G q))))
   \<and> list_all (\<lambda>(n, d). d \<le> 4) (s_enqueued (final_state (traverse G q)))
   \<and> set (map fst (s_enqueued (final_state (traverse G q)))) \<subseteq> within_hops G 4 (q_requested q)
   \<and> set (s_visited (final_state (traverse G q))) \<subseteq> within_hops G 5 (q_requested q)"
proof -
  let ?st = "final_state (traverse G q)"
  from traverse_final [of q G] have i: "traversal_inv (q_requested q) ?st"
    and g: "s_graph ?st = G" by simp_all
  from i g have e: "list_all (\<lambda>(n, d). d \<le> 4 \<and> n \<in> within_hops G d (q_requested q)) (s_enqueued ?st)"
    by (simp add: traversal_inv_def)
  have "list_all (\<lambda>(n, d). d \<le> 4) (s_enqueued ?st)"
    using e by (auto simp: list_all_iff)
  moreover have "set (map fst (s_enqueued ?st)) \<subseteq> within_hops G 4 (q_requested q)"
    using e within_hops_le [of _ 4 G "q_requested q"] by (fastforce simp: list_all_iff)
  ultimately show ?thesis using i g by (simp add: traversal_inv_def)
qed

text \<open>
  The claim as stated bounds the visited nodes by 4 hops. On a chain
  \<open>R - A - B - C - D - E - F\<close> the node \<open>E\<close>, 5 hops from \<open>R\<close>, is marked visited when
  \<open>D\<close> (depth 4) is taken from the queue; it is not enqueued, so \<open>F\<close> is never seen.
\<close>

theorem depth_five_is_visited:
  "''E'' \<in> set (s_visited (final_state (traverse kg_chain (plain_query ''R''))))
   \<and> ''E'' \<notin> within_hops kg_chain 4 ''R''
   \<and> ''F'' \<notin> set (s_visited (final_state (traverse kg_chain (plain_query ''R''))))"
  by code_simp

section \<open>Candidates\<close>

text \<open>
  C1. Every alternative returned must be a product in stock that passes the hard
  filters, and a product that is out of stock must be visited and passed over. Here the
  requested product \<open>P1\<close> and its only neighbour of the same category, \<open>P2\<close>, are both
  out of stock: the query should return an empty list of alternatives. The stock test
  of line 79 raises instead (\<open>in_stock_one_argument\<close>), so no list is returned.
  \<open>alternatives_always_empty\<close> above shows the extent: no call ever returns a candidate.
\<close>

theorem out_of_stock_neighbor_raises:
  "find_alternatives (kg_two_products False False) (plain_query ''P1'') = Inl TypeError"
  by code_simp

text \<open>
  C5. With \<^verbatim>\<open>max_results = 1\<close> and three candidates of equal score and prices 90, 70 and
  80, the one returned must be the cheapest. The call raises \<^verbatim>\<open>TypeError\<close> at the first
  of them (line 79), before anything is ranked.
\<close>

theorem cheapest_of_three_raises:
  "find_alternatives kg_three_alternatives ((plain_query ''P0'')\<lparr>q_max_results := 1\<rparr>) = Inl TypeError"
  by code_simp

section \<open>Similar categories\<close>

lemma scan_similar_dicts:
  "scan_similar (map DictVal as) = Inr (\<exists>a \<in> set as. map_of a ''type'' = Some ''SIMILAR_TO'')"
  by (induction as) (simp_all add: bind_err_def)

lemma edge_data_values_multi:
  assumes "multigraph G"
  shows "edge_data_values G u v =
           map DictVal (map (\<lambda>e. snd (snd e))
             (filter (\<lambda>e. fst e = u \<and> fst (snd e) = v) (edge_list G)))"
  using assms by (simp add: edge_data_values_def split_def comp_def)

lemma similar_edge_multi:
  assumes "multigraph G"
  shows "similar_edge G u v =
           Inr (\<exists>e \<in> set (edge_list G). fst e = u \<and> fst (snd e) = v
                  \<and> map_of (snd (snd e)) ''type'' = Some ''SIMILAR_TO'')"
proof -
  let ?P = "\<lambda>e. fst e = u \<and> fst (snd e) = v"
  have "(\<exists>a \<in> set (map (\<lambda>e. snd (snd e)) (filter ?P (edge_list G))).
            map_of a ''type'' = Some ''SIMILAR_TO'')
        \<longleftrightarrow> (\<exists>e \<in> set (edge_list G). ?P e \<and> map_of (snd (snd e)) ''type'' = Some ''SIMILAR_TO'')"
    by (simp add: Bex_def)
  moreover have "\<not> has_edge G u v \<Longrightarrow>
      \<not> (\<exists>e \<in> set (edge_list G). ?P e \<and> map_of (snd (snd e)) ''type'' = Some ''SIMILAR_TO'')"
    by (auto simp: has_edge_def)
  ultimately show ?thesis
    unfolding similar_edge_def edge_data_values_multi [OF assms] scan_similar_dicts
    by (cases "has_edge G u v") simp_all
qed

lemma categories_are_similar_multi:
  assumes "multigraph G" and "x \<noteq> []" and "y \<noteq> []" and "x \<noteq> y"
  shows "categories_are_similar G (Some x) (Some y) = Inr (direct_similar_edge G x y)"
  using assms
  by (auto simp: categories_are_similar_def truthy_def bind_err_def similar_edge_multi
      direct_similar_edge_def)

lemma categories_are_similar_no_edge:
  assumes "\<not> has_edge G x y" and "\<not> has_edge G y x" and "x \<noteq> []" and "y \<noteq> []" and "x \<noteq> y"
  shows "categories_are_similar G (Some x) (Some y) = Inr False"
  using assms
  by (simp add: categories_are_similar_def truthy_def bind_err_def similar_edge_def)

text \<open>
  What \<^verbatim>\<open>categories_are_similar\<close> returns where it does return. It is false when
  either argument is absent or the empty string, and true when the two are equal and not
  empty. For two different non-empty categories it is false when no edge joins them in
  either direction; on a graph that stores parallel edges, the class the two loops are
  written for, it is true exactly when some edge between them, in either direction and
  among all parallel edges, has the type \<^verbatim>\<open>SIMILAR_TO\<close>. Only edges between the two
  categories themselves are read.
\<close>

lemma similarity_is_a_direct_edge:
  "(\<not> truthy a \<or> \<not> truthy b \<longrightarrow> categories_are_similar G a b = Inr False)
   \<and> (truthy a \<and> a = b \<longrightarrow> categories_are_similar G a b = Inr True)
   \<and> (x \<noteq> [] \<and> y \<noteq> [] \<and> x \<noteq> y \<and> multigraph G \<longrightarrow>
        categories_are_similar G (Some x) (Some y) = Inr (direct_similar_edge G x y))
   \<and> (x \<noteq> [] \<and> y \<noteq> [] \<and> x \<noteq> y \<and> \<not> has_edge G x y \<and> \<not> has_edge G y x \<longrightarrow>
        categories_are_similar G (Some x) (Some y) = Inr False)"
proof -
  have 1: "\<not> truthy a \<or> \<not> truthy b \<longrightarrow> categories_are_similar G a b = Inr False"
    by (simp add: categories_are_similar_def)
  have 2: "truthy a \<and> a = b \<longrightarrow> categories_are_similar G a b = Inr True"
    by (auto simp: categories_are_similar_def)
  from 1 2 categories_are_similar_multi [of G x y] categories_are_similar_no_edge [of G x y]
  show ?thesis by blast
qed

lemma similarity_is_a_direct_edge_examples:
  "categories_are_similar kg_similar_multi None (Some ''C1'') = Inr False
   \<and> categories_are_similar kg_similar_multi (Some ''C1'') (Some ''C1'') = Inr True
   \<and> categories_are_similar kg_similar_multi (Some ''C2'') (Some ''C1'') = Inr True
   \<and> categories_are_similar kg_similar_multi (Some ''C2'') (Some ''C3'') = Inr False
   \<and> categories_are_similar kg_similar_digraph (Some ''C1'') (Some ''C3'') = Inr False"
proof -
  have a: "\<not> truthy None \<or> \<not> truthy (Some ''C1'')" by (simp add: truthy_def)
  have b: "truthy (Some ''C1'') \<and> Some ''C1'' = Some ''C1''" by (simp add: truthy_def)
  have m: "multigraph kg_similar_multi" by (simp add: kg_similar_multi_def)
  have e1: "direct_similar_edge kg_similar_multi ''C2'' ''C1''" by code_simp
  have e2: "\<not> direct_similar_edge kg_similar_multi ''C2'' ''C3''" by code_simp
  have n: "\<not> has_edge kg_similar_digraph ''C1'' ''C3'' \<and> \<not> has_edge kg_similar_digraph ''C3'' ''C1''"
    by code_simp
  from similarity_is_a_direct_edge [of None "Some ''C1''" kg_similar_multi] a
  have 1: "categories_are_similar kg_similar_multi None (Some ''C1'') = Inr False" by blast
  from similarity_is_a_direct_edge [of "Some ''C1''" "Some ''C1''" kg_similar_multi] b
  have 2: "categories_are_similar kg_similar_multi (Some ''C1'') (Some ''C1'') = Inr True" by blast
  from similarity_is_a_direct_edge [of _ _ kg_similar_multi "''C2''" "''C1''"] m e1
  have 3: "categories_are_similar kg_similar_multi (Some ''C2'') (Some ''C1'') = Inr True" by simp
  from similarity_is_a_direct_edge [of _ _ kg_similar_multi "''C2''" "''C3''"] m e2
  have 4: "categories_are_similar kg_similar_multi (Some ''C2'') (Some ''C3'') = Inr False" by simp
  from similarity_is_a_direct_edge [of _ _ kg_similar_digraph "''C1''" "''C3''"] n
  have 5: "categories_are_similar kg_similar_digraph (Some ''C1'') (Some ''C3'') = Inr False" by simp
  from 1 2 3 4 5 show ?thesis by simp
qed

text \<open>The test of line 161 is a truth test, so the empty string counts as absent.\<close>

lemma empty_category_not_similar_to_itself:
  "categories_are_similar kg_similar_multi (Some '''') (Some '''') = Inr False"
  by code_simp

text \<open>
  C7. Two different categories joined by an edge of type \<^verbatim>\<open>SIMILAR_TO\<close>, in either
  direction, must be found similar. On the graph class that \<^verbatim>\<open>load_kg\<close> builds
  (\<^verbatim>\<open>nx.DiGraph\<close>, line 13), \<^verbatim>\<open>get_edge_data(a, b)\<close> is the attribute dictionary of the
  one edge, so \<^verbatim>\<open>.values()\<close> yields the type string itself and \<^verbatim>\<open>e.get("type")\<close> fails on
  it: for the edge \<open>C1 \<rightarrow> C2\<close> of type \<^verbatim>\<open>SIMILAR_TO\<close> the call raises \<^verbatim>\<open>AttributeError\<close>,
  whichever category comes first (lines 167-168 and 171-172).
\<close>

theorem similar_lookup_raises_on_digraph:
  "categories_are_similar kg_similar_digraph (Some ''C1'') (Some ''C2'') = Inl AttributeError
   \<and> categories_are_similar kg_similar_digraph (Some ''C2'') (Some ''C1'') = Inl AttributeError"
  by code_simp

text \<open>Both arguments pass the truth test of line 161, and the edge is in the graph.\<close>

theorem similar_lookup_raises_on_digraph_witness:
  "truthy (Some ''C1'') \<and> truthy (Some ''C2'') \<and> has_edge kg_similar_digraph ''C1'' ''C2''
   \<and> categories_are_similar kg_similar_digraph (Some ''C1'') (Some ''C2'') \<noteq> Inr True
   \<and> categories_are_similar kg_similar_digraph (Some ''C2'') (Some ''C1'') \<noteq> Inr True"
proof -
  have "truthy (Some ''C1'') \<and> truthy (Some ''C2'')" by (simp add: truthy_def)
  moreover have "has_edge kg_similar_digraph ''C1'' ''C2''" by code_simp
  ultimately show ?thesis using similar_lookup_raises_on_digraph by simp
qed

end
